theory Spec2Isabelle
  imports Main "HOL-Library.Multiset"
begin

section \<open>The shelf placement of the piece-registration screen\<close>

text \<open>
  The source is the React component \<^verbatim>\<open>App\<close> (the \<^verbatim>\<open>.tsx\<close> text that follows the
  Dockerfile in \<^verbatim>\<open>src/Dockerfile\<close>). Its state holds the registered pieces
  \<^verbatim>\<open>pecas\<close>, the roll width \<^verbatim>\<open>larguraRolo\<close>, the roll length \<^verbatim>\<open>comprimentoRolo\<close>
  (text of a number field, \<^verbatim>\<open>0\<close> or empty meaning unlimited), and the two outputs
  \<^verbatim>\<open>arranjo\<close> and \<^verbatim>\<open>comprimentoUtilizado\<close>.

  Numbers are modelled as \<^typ>\<open>int\<close>: whole millimetres. The three fields of the form
  are number inputs with \<^verbatim>\<open>required\<close>, \<^verbatim>\<open>min=1\<close> and the default step 1, so a piece
  registered through the form has width, height and quantity at least 1; the functions
  themselves check no sign, and the model takes any integer. Floating-point rounding is
  outside the model; so are memory exhaustion and the engine's upper limit on array
  lengths.
\<close>

subsection \<open>Data\<close>

text \<open>
  \<^verbatim>\<open>{ largura, altura }\<close> is an expanded piece; a registered piece adds \<^verbatim>\<open>quantidade\<close>;
  an entry of the arrangement adds the position \<^verbatim>\<open>x\<close>, \<^verbatim>\<open>y\<close> (fields \<open>pos_x\<close>,
  \<open>pos_y\<close> here, so that \<open>x\<close> and \<open>y\<close> stay free for variables).
\<close>

record retangulo =
  largura :: int
  altura :: int

record peca = retangulo +
  quantidade :: int

record colocacao = retangulo +
  pos_x :: int
  pos_y :: int

text \<open>What \<^verbatim>\<open>calcularArranjo\<close> stores: \<^verbatim>\<open>setArranjo\<close> and \<^verbatim>\<open>setComprimentoUtilizado\<close>.\<close>

record resultado =
  arranjo :: "colocacao list"
  comprimentoUtilizado :: int

text \<open>The only exception the function can raise: \<^verbatim>\<open>Array(n)\<close> with an invalid length.\<close>

datatype excecao = RangeError

subsection \<open>\<^verbatim>\<open>adicionarPeca\<close>\<close>



subsection \<open>Expansion and ordering\<close>

text \<open>
  \<^verbatim>\<open>Array(peca.quantidade).fill({ largura: peca.largura, altura: peca.altura })\<close>:
  \<^verbatim>\<open>Array(n)\<close> raises \<^verbatim>\<open>RangeError\<close> for a negative length.
\<close>

definition array_fill :: "peca \<Rightarrow> excecao + retangulo list" where
  "array_fill p =
     (if quantidade p < 0 then Inl RangeError
      else Inr (replicate (nat (quantidade p)) \<lparr>largura = largura p, altura = altura p\<rparr>))"

text \<open>\<^verbatim>\<open>pecas.flatMap(...)\<close>: the callback runs on the pieces in order; the first exception
  aborts the call.\<close>

fun flatMap_pecas :: "peca list \<Rightarrow> excecao + retangulo list" where
  "flatMap_pecas [] = Inr []"
| "flatMap_pecas (p # ps) =
     (case array_fill p of
        Inl e \<Rightarrow> Inl e
      | Inr xs \<Rightarrow> (case flatMap_pecas ps of Inl e \<Rightarrow> Inl e | Inr ys \<Rightarrow> Inr (xs @ ys)))"

text \<open>
  \<^verbatim>\<open>todasPecas.sort((a, b) => b.altura - a.altura)\<close>: \<^verbatim>\<open>Array.prototype.sort\<close> is stable,
  and the comparator orders by decreasing \<^verbatim>\<open>altura\<close>. \<^const>\<open>sort_key\<close> is the stable
  insertion sort of the list library.
\<close>

definition ordenar :: "retangulo list \<Rightarrow> retangulo list" where
  "ordenar ps = sort_key (\<lambda>p. - altura p) ps"

text \<open>
  \<^verbatim>\<open>Number(comprimentoRolo) > 0 ? Number(comprimentoRolo) : Infinity\<close>, with \<open>None\<close> for
  \<^verbatim>\<open>Infinity\<close>; \<open>ate v m\<close> is \<^verbatim>\<open>v <= m\<close> on such a bound.
\<close>

definition comprimentoMax :: "int \<Rightarrow> int option" where
  "comprimentoMax comprimentoRolo = (if 0 < comprimentoRolo then Some comprimentoRolo else None)"

fun ate :: "int \<Rightarrow> int option \<Rightarrow> bool" where
  "ate v None = True"
| "ate v (Some m) = (v \<le> m)"

subsection \<open>The inner loop: filling one shelf\<close>

text \<open>
  \<^verbatim>\<open>while (i < todasPecas.length) { ... }\<close> with the loop variables \<open>i\<close>, \<open>x\<close>,
  \<open>todasPecas\<close>, \<open>resultado\<close>. \<^verbatim>\<open>todasPecas.splice(i, 1)\<close> removes the element at \<open>i\<close>.
\<close>

function preencherPrateleira ::
  "int \<Rightarrow> int \<Rightarrow> int \<Rightarrow> int option \<Rightarrow> nat \<Rightarrow> int \<Rightarrow> retangulo list \<Rightarrow> colocacao list
     \<Rightarrow> retangulo list \<times> colocacao list" where
  "preencherPrateleira larguraRolo y shelfAltura cmax i x todasPecas res =
     (if i < length todasPecas then
        (if x + largura (todasPecas ! i) \<le> larguraRolo then
           (if ate (y + shelfAltura) cmax then
              preencherPrateleira larguraRolo y shelfAltura cmax i
                (x + largura (todasPecas ! i))
                (take i todasPecas @ drop (Suc i) todasPecas)
                (res @ [\<lparr>largura = largura (todasPecas ! i), altura = altura (todasPecas ! i),
                          pos_x = x, pos_y = y\<rparr>])
            else
              preencherPrateleira larguraRolo y shelfAltura cmax (length todasPecas) x
                todasPecas res)
         else
           preencherPrateleira larguraRolo y shelfAltura cmax (Suc i) x todasPecas res)
      else (todasPecas, res))"
  by pat_completeness auto
termination
  by (relation "measure (\<lambda>(W, y, s, c, i, x, todas, res). length todas - i)") auto

declare preencherPrateleira.simps [simp del]

subsection \<open>The outer loop: one shelf per iteration\<close>

text \<open>
  \<^verbatim>\<open>while (todasPecas.length > 0) { ...; if (y + shelfAltura > comprimentoMax) break; ... }\<close>
  on the loop variables \<open>(y, comprimentoTotal, todasPecas, resultado)\<close>. The loop need not
  end, so the function is partial: \<open>None\<close> is a run that never leaves the loop.
\<close>

partial_function (option) prateleiras ::
  "int \<Rightarrow> int option \<Rightarrow> int \<times> int \<times> retangulo list \<times> colocacao list
     \<Rightarrow> (colocacao list \<times> int) option" where
  "prateleiras larguraRolo cmax st =
     (case st of (y, comprimentoTotal, todasPecas, res) \<Rightarrow>
        (case todasPecas of
           [] \<Rightarrow> Some (res, comprimentoTotal)
         | p0 # _ \<Rightarrow>
             (let shelfAltura = altura p0;
                  r = preencherPrateleira larguraRolo y shelfAltura cmax 0 0 todasPecas res
              in if \<not> ate (y + shelfAltura) cmax then Some (snd r, comprimentoTotal)
                 else prateleiras larguraRolo cmax
                        (y + shelfAltura, comprimentoTotal + shelfAltura, fst r, snd r))))"

declare prateleiras.simps [code]

subsection \<open>\<^verbatim>\<open>calcularArranjo\<close>\<close>

text \<open>
  The outcome is \<open>None\<close> when the call never returns, \<open>Some (Inl e)\<close> when it raises
  \<open>e\<close> (the two state setters are then not reached), and \<open>Some (Inr r)\<close> when it stores
  \<open>r\<close>.
\<close>

definition calcularArranjo :: "int \<Rightarrow> int \<Rightarrow> peca list \<Rightarrow> (excecao + resultado) option" where
  "calcularArranjo larguraRolo comprimentoRolo pecas =
     (case flatMap_pecas pecas of
        Inl e \<Rightarrow> Some (Inl e)
      | Inr todasPecas \<Rightarrow>
          (case prateleiras larguraRolo (comprimentoMax comprimentoRolo)
                  (0, 0, ordenar todasPecas, []) of
             None \<Rightarrow> None
           | Some (res, comprimentoTotal) \<Rightarrow>
               Some (Inr \<lparr>arranjo = res, comprimentoUtilizado = comprimentoTotal\<rparr>)))"

subsection \<open>The loop as a sequence of shelves\<close>

text \<open>
  The same loop with a history variable: \<open>hist\<close> collects the loop variables at the head
  of every iteration that runs to its end, that is, of every shelf opened without
  taking the \<^verbatim>\<open>break\<close>. Nothing else differs from \<^const>\<open>prateleiras\<close>.
\<close>

type_synonym estado = "int \<times> int \<times> retangulo list \<times> colocacao list"

partial_function (option) historico ::
  "int \<Rightarrow> int option \<Rightarrow> estado \<Rightarrow> estado list \<Rightarrow> estado list option" where
  "historico larguraRolo cmax st hist =
     (case st of (y, comprimentoTotal, todasPecas, res) \<Rightarrow>
        (case todasPecas of
           [] \<Rightarrow> Some hist
         | p0 # _ \<Rightarrow>
             (let shelfAltura = altura p0;
                  r = preencherPrateleira larguraRolo y shelfAltura cmax 0 0 todasPecas res
              in if \<not> ate (y + shelfAltura) cmax then Some hist
                 else historico larguraRolo cmax
                        (y + shelfAltura, comprimentoTotal + shelfAltura, fst r, snd r)
                        (hist @ [st]))))"

declare historico.simps [code]

text \<open>The shelves of a call of \<^verbatim>\<open>calcularArranjo\<close> whose expansion succeeds.\<close>

definition prateleirasAbertas :: "int \<Rightarrow> int \<Rightarrow> peca list \<Rightarrow> estado list option" where
  "prateleirasAbertas larguraRolo comprimentoRolo pecas =
     (case flatMap_pecas pecas of
        Inl e \<Rightarrow> None
      | Inr todasPecas \<Rightarrow>
          historico larguraRolo (comprimentoMax comprimentoRolo) (0, 0, ordenar todasPecas, []) [])"

text \<open>Reading a shelf off the loop variables at its head: its \<open>y\<close>, its height
  \<^verbatim>\<open>todasPecas[0].altura\<close>, and what the inner loop places on it.\<close>

fun topo :: "estado \<Rightarrow> int" where
  "topo (y, comprimentoTotal, todasPecas, res) = y"

fun acumulado :: "estado \<Rightarrow> int" where
  "acumulado (y, comprimentoTotal, todasPecas, res) = comprimentoTotal"

fun pendentes :: "estado \<Rightarrow> retangulo list" where
  "pendentes (y, comprimentoTotal, todasPecas, res) = todasPecas"

fun postas :: "estado \<Rightarrow> colocacao list" where
  "postas (y, comprimentoTotal, todasPecas, res) = res"

fun shelfAltura :: "estado \<Rightarrow> int" where
  "shelfAltura (y, comprimentoTotal, todasPecas, res) =
     (case todasPecas of [] \<Rightarrow> 0 | p0 # _ \<Rightarrow> altura p0)"


subsection \<open>Auxiliary functions for the proofs\<close>

text \<open>
  The inner loop by recursion on the part of the list not yet scanned: what stays in
  \<open>todasPecas\<close> and what is appended to \<open>resultado\<close>; \<open>ok\<close> is the test
  \<^verbatim>\<open>y + shelfAltura <= comprimentoMax\<close>, which does not change during one shelf.
\<close>

fun restantes :: "int \<Rightarrow> bool \<Rightarrow> int \<Rightarrow> retangulo list \<Rightarrow> retangulo list" where
  "restantes W ok x [] = []"
| "restantes W ok x (p # ps) =
     (if x + largura p \<le> W then (if ok then restantes W ok (x + largura p) ps else p # ps)
      else p # restantes W ok x ps)"

fun colocadas :: "int \<Rightarrow> int \<Rightarrow> bool \<Rightarrow> int \<Rightarrow> retangulo list \<Rightarrow> colocacao list" where
  "colocadas W y ok x [] = []"
| "colocadas W y ok x (p # ps) =
     (if x + largura p \<le> W then
        (if ok then \<lparr>largura = largura p, altura = altura p, pos_x = x, pos_y = y\<rparr>
                      # colocadas W y ok (x + largura p) ps
         else [])
      else colocadas W y ok x ps)"

text \<open>One iteration of the outer loop: whether it runs to its end, and the loop variables
  after it.\<close>

definition continua :: "int option \<Rightarrow> estado \<Rightarrow> bool" where
  "continua cmax st = (pendentes st \<noteq> [] \<and> ate (topo st + shelfAltura st) cmax)"

definition proximo :: "int \<Rightarrow> estado \<Rightarrow> estado" where
  "proximo W st =
     (topo st + shelfAltura st, acumulado st + shelfAltura st,
      restantes W True 0 (pendentes st), postas st @ colocadas W (topo st) True 0 (pendentes st))"

text \<open>\<open>cadeia W cmax st hs fin\<close>: starting at \<open>st\<close>, the iterations that run to their end
  start at the states \<open>hs\<close>, and the loop is left at \<open>fin\<close>.\<close>

fun cadeia :: "int \<Rightarrow> int option \<Rightarrow> estado \<Rightarrow> estado list \<Rightarrow> estado \<Rightarrow> bool" where
  "cadeia W cmax st [] fin = (\<not> continua cmax st \<and> fin = st)"
| "cadeia W cmax st (h # hs) fin =
     (h = st \<and> continua cmax st \<and> cadeia W cmax (proximo W st) hs fin)"

subsection \<open>The vocabulary of the properties\<close>

text \<open>The width and height of a placement, as a piece.\<close>

definition medidas :: "colocacao \<Rightarrow> retangulo" where
  "medidas c = \<lparr>largura = largura c, altura = altura c\<rparr>"


text \<open>The requested instances: every registered piece, \<open>quantidade\<close> times, in input
  order.\<close>

definition instancias :: "peca list \<Rightarrow> retangulo list" where
  "instancias pecas =
     concat (map (\<lambda>p. replicate (nat (quantidade p)) \<lparr>largura = largura p, altura = altura p\<rparr>)
               pecas)"

text \<open>A list of pieces in order of decreasing height.\<close>

definition decrescente :: "retangulo list \<Rightarrow> bool" where
  "decrescente ps = sorted_wrt (\<lambda>a b. altura b \<le> altura a) ps"


subsection \<open>Loop invariants\<close>

text \<open>
  What holds of the loop variables at the head of every iteration. \<open>inv_limites\<close> needs
  no assumption on the pieces; \<open>inv_alturas\<close> is for pieces of non-negative height,
  \<open>inv_larguras\<close> for pieces of non-negative width, \<open>inv_disjuntas\<close> for both.
\<close>

definition inv_limites :: "int \<Rightarrow> int option \<Rightarrow> estado \<Rightarrow> bool" where
  "inv_limites W c st =
     (decrescente (pendentes st) \<and> acumulado st = topo st \<and> ate (topo st) c \<and>
      (\<forall>pl\<in>set (postas st). pos_x pl + largura pl \<le> W \<and> ate (pos_y pl + altura pl) c))"




subsection \<open>The reference procedure of the specification\<close>








subsection \<open>Concrete inputs\<close>





text \<open>A roll 10 wide and 5 long with two pieces of height 5, of widths 4 and 8, and the same
  with widths 4 and 9: in both the second piece finds no room, and both store the same
  result.\<close>

definition cenarioC :: "peca list" where
  "cenarioC = [\<lparr>largura = 4, altura = 5, quantidade = 1\<rparr>,
               \<lparr>largura = 8, altura = 5, quantidade = 1\<rparr>]"

definition cenarioD :: "peca list" where
  "cenarioD = [\<lparr>largura = 4, altura = 5, quantidade = 1\<rparr>,
               \<lparr>largura = 9, altura = 5, quantidade = 1\<rparr>]"

definition resultadoC :: resultado where
  "resultadoC =
     \<lparr>arranjo = [\<lparr>largura = 4, altura = 5, pos_x = 0, pos_y = 0\<rparr>],
      comprimentoUtilizado = 5\<rparr>"





section \<open>The \<^verbatim>\<open>optimize-cutting\<close> handler of the desktop shell\<close>

text \<open>
  \<^verbatim>\<open>ipcMain.handle('optimize-cutting', ...)\<close> in \<^verbatim>\<open>frontend/public/electron.js\<close> starts the
  Python backend and returns a promise that the callbacks of the process and of a
  30 second timer settle. What the handler does is fixed by the order in which these
  callbacks run, so a run is modelled by the sequence of its events; the clock itself
  is not modelled. \<^verbatim>\<open>JSON.parse\<close> and the truth value of what it returns are parameters;
  writing and removing the temporary configuration file and starting the process are
  taken to succeed.
\<close>

datatype evento =
    Stdout string   \<comment> \<open>\<^verbatim>\<open>pythonProcess.stdout.on('data')\<close>\<close>
  | Stderr string   \<comment> \<open>\<^verbatim>\<open>pythonProcess.stderr.on('data')\<close>\<close>
  | Timeout         \<comment> \<open>the callback of \<^verbatim>\<open>setTimeout(..., 30000)\<close> is due\<close>
  | Close "int option"   \<comment> \<open>\<^verbatim>\<open>pythonProcess.on('close')\<close>; the code is \<^verbatim>\<open>null\<close> after a signal\<close>

text \<open>The errors the handler rejects with (their messages are Portuguese text).\<close>

datatype falha =
    ScriptNaoEncontrado       \<comment> \<open>\<^verbatim>\<open>Erro ao executar ...: Script Python ... encontrado\<close>\<close>
  | TimeoutPython             \<comment> \<open>\<^verbatim>\<open>Timeout: Python process demorou muito para responder\<close>\<close>
  | ResultadoNaoProcessado    \<comment> \<open>no JSON value could be read from the output\<close>
  | ErroNoPython string       \<comment> \<open>\<^verbatim>\<open>Erro no Python: ${error}\<close>\<close>

datatype 'j liquidacao = Resolve 'j | Reject falha

text \<open>The variables of the promise's executor: \<^verbatim>\<open>result\<close>, \<^verbatim>\<open>error\<close>, whether the timer
  is still pending, and how the promise was settled, if it was.\<close>

record 'j execucao =
  result :: string
  error :: string
  timeout_pendente :: bool
  promessa :: "'j liquidacao option"

text \<open>\<^verbatim>\<open>resolve\<close> and \<^verbatim>\<open>reject\<close>: only the first call settles a promise.\<close>

definition liquidar :: "'j liquidacao \<Rightarrow> 'j execucao \<Rightarrow> 'j execucao" where
  "liquidar l s = (case promessa s of None \<Rightarrow> s\<lparr>promessa := Some l\<rparr> | Some _ \<Rightarrow> s)"

text \<open>\<^verbatim>\<open>trim\<close> (on the white space of ASCII), \<^verbatim>\<open>split('\n')\<close> and the test
  \<^verbatim>\<open>line.startsWith('{') || line.startsWith('[')\<close>.\<close>

definition espaco :: "char \<Rightarrow> bool" where
  "espaco c = (c \<in> {CHR '' '', CHR 0x09, CHR 0x0A, CHR 0x0B, CHR 0x0C, CHR 0x0D})"

definition trim :: "string \<Rightarrow> string" where
  "trim s = rev (dropWhile espaco (rev (dropWhile espaco s)))"

fun split_linhas :: "string \<Rightarrow> string list" where
  "split_linhas [] = [[]]"
| "split_linhas (c # cs) =
     (if c = CHR 0x0A then [] # split_linhas cs
      else (case split_linhas cs of l # ls \<Rightarrow> (c # l) # ls | [] \<Rightarrow> [[c]]))"

definition abre_json :: "string \<Rightarrow> bool" where
  "abre_json line = (case line of [] \<Rightarrow> False | c # _ \<Rightarrow> c = CHR ''{'' \<or> c = CHR ''['')"

text \<open>The search for a JSON value: the whole trimmed output first, then line by line, the
  first line that opens like an object or an array and parses.\<close>

fun primeira_linha :: "(string \<Rightarrow> 'j option) \<Rightarrow> string list \<Rightarrow> 'j option" where
  "primeira_linha parse [] = None"
| "primeira_linha parse (l # ls) =
     (if abre_json (trim l) then
        (case parse (trim l) of Some j \<Rightarrow> Some j | None \<Rightarrow> primeira_linha parse ls)
      else primeira_linha parse ls)"

definition jsonResult :: "(string \<Rightarrow> 'j option) \<Rightarrow> string \<Rightarrow> 'j option" where
  "jsonResult parse res =
     (case parse (trim res) of
        Some j \<Rightarrow> Some j
      | None \<Rightarrow> primeira_linha parse (split_linhas (trim res)))"

text \<open>One callback. The timer's callback kills the process and rejects; \<^verbatim>\<open>close\<close> clears
  the timer, then resolves with the JSON value when the exit code is 0 and a value that
  counts as true was found, and rejects otherwise.\<close>

fun passo :: "(string \<Rightarrow> 'j option) \<Rightarrow> ('j \<Rightarrow> bool) \<Rightarrow> 'j execucao \<Rightarrow> evento \<Rightarrow> 'j execucao" where
  "passo parse truthy s (Stdout d) = s\<lparr>result := result s @ d\<rparr>"
| "passo parse truthy s (Stderr d) = s\<lparr>error := error s @ d\<rparr>"
| "passo parse truthy s Timeout =
     (if timeout_pendente s then liquidar (Reject TimeoutPython) (s\<lparr>timeout_pendente := False\<rparr>)
      else s)"
| "passo parse truthy s (Close code) =
     (let s' = s\<lparr>timeout_pendente := False\<rparr> in
      if code = Some 0 then
        (case jsonResult parse (result s) of
           Some j \<Rightarrow> if truthy j then liquidar (Resolve j) s'
                     else liquidar (Reject ResultadoNaoProcessado) s'
         | None \<Rightarrow> liquidar (Reject ResultadoNaoProcessado) s')
      else liquidar (Reject (ErroNoPython (error s))) s')"

text \<open>The handler: it rejects at once when the script is missing; otherwise the promise is
  what the callbacks made of it (\<open>None\<close>: still pending after these events).\<close>

definition optimize_cutting ::
  "bool \<Rightarrow> (string \<Rightarrow> 'j option) \<Rightarrow> ('j \<Rightarrow> bool) \<Rightarrow> evento list \<Rightarrow> 'j liquidacao option" where
  "optimize_cutting script_existe parse truthy eventos =
     (if \<not> script_existe then Some (Reject ScriptNaoEncontrado)
      else promessa (foldl (passo parse truthy)
                       \<lparr>result = [], error = [], timeout_pendente = True, promessa = None\<rparr>
                       eventos))"

text \<open>Events that only carry output of the process.\<close>

fun saida :: "evento \<Rightarrow> bool" where
  "saida (Stdout d) = True"
| "saida (Stderr d) = True"
| "saida Timeout = False"
| "saida (Close code) = False"

section \<open>The loops, step by step\<close>

lemma preencherPrateleira_eq:
  "preencherPrateleira W y s c i x todas res =
     (take i todas @ restantes W (ate (y + s) c) x (drop i todas),
      res @ colocadas W y (ate (y + s) c) x (drop i todas))"
proof (induction W y s c i x todas res rule: preencherPrateleira.induct)
  case (1 W y s c i x todas res)
  show ?case
  proof (cases "i < length todas")
    case False
    then show ?thesis by (simp add: preencherPrateleira.simps)
  next
    case lt: True
    then have d: "drop i todas = todas ! i # drop (Suc i) todas"
      by (simp add: Cons_nth_drop_Suc)
    show ?thesis
    proof (cases "x + largura (todas ! i) \<le> W")
      case False
      with lt d "1.IH"(3) show ?thesis
        by (subst preencherPrateleira.simps) (simp add: take_Suc_conv_app_nth)
    next
      case fits: True
      show ?thesis
      proof (cases "ate (y + s) c")
        case True
        have t: "take i (take i todas @ drop (Suc i) todas) = take i todas"
          using lt by simp
        have dd: "drop i (take i todas @ drop (Suc i) todas) = drop (Suc i) todas"
          using lt by simp
        from lt fits True d "1.IH"(1) t dd show ?thesis
          by (subst preencherPrateleira.simps) simp
      next
        case False
        have "take i todas @ todas ! i # drop (Suc i) todas = todas"
          using lt by (rule id_take_nth_drop [symmetric])
        with False lt fits d "1.IH"(2) show ?thesis
          by (subst preencherPrateleira.simps) simp
      qed
    qed
  qed
qed

lemma sem_espaco: "restantes W False x ps = ps \<and> colocadas W y False x ps = []"
  by (induction ps) auto

lemma prateleiras_unfold:
  "prateleiras W c st =
     (if continua c st then prateleiras W c (proximo W st) else Some (postas st, acumulado st))"
proof -
  obtain y t todas res where st: "st = (y, t, todas, res)"
    by (cases st) auto
  show ?thesis
  proof (cases todas)
    case Nil
    with st show ?thesis
      by (subst prateleiras.simps) (simp add: continua_def)
  next
    case (Cons p0 ps)
    with st show ?thesis
      by (subst prateleiras.simps)
         (simp add: continua_def proximo_def preencherPrateleira_eq sem_espaco Let_def)
  qed
qed

lemma historico_unfold:
  "historico W c st hist =
     (if continua c st then historico W c (proximo W st) (hist @ [st]) else Some hist)"
proof -
  obtain y t todas res where st: "st = (y, t, todas, res)"
    by (cases st) auto
  show ?thesis
  proof (cases todas)
    case Nil
    with st show ?thesis
      by (subst historico.simps) (simp add: continua_def)
  next
    case (Cons p0 ps)
    with st show ?thesis
      by (subst historico.simps)
         (simp add: continua_def proximo_def preencherPrateleira_eq sem_espaco Let_def)
  qed
qed

lemma prateleiras_cadeia_aux:
  assumes "prateleiras W c st = Some r"
  shows "\<forall>hist. \<exists>hs fin. historico W c st hist = Some (hist @ hs) \<and> cadeia W c st hs fin
           \<and> r = (postas fin, acumulado fin)"
proof (rule prateleiras.raw_induct
    [where P = "\<lambda>W c st r. \<forall>hist. \<exists>hs fin. historico W c st hist = Some (hist @ hs)
                   \<and> cadeia W c st hs fin \<and> r = (postas fin, acumulado fin)", OF _ assms],
    goal_cases)
  case (1 prat W c st r)
  obtain y t todas res where st: "st = (y, t, todas, res)"
    by (cases st) auto
  have body: "(if continua c st then prat W c (proximo W st) else Some (postas st, acumulado st))
                = Some r"
  proof (cases todas)
    case Nil
    with st "1"(2) show ?thesis
      by (simp add: continua_def)
  next
    case (Cons p0 ps)
    with st "1"(2) show ?thesis
      by (simp add: continua_def proximo_def preencherPrateleira_eq sem_espaco Let_def
               split: if_splits)
  qed
  show ?case
  proof (cases "continua c st")
    case False
    with body have "r = (postas st, acumulado st)" by simp
    moreover from False have "\<And>hist. historico W c st hist = Some (hist @ [])"
      by (subst historico_unfold) simp
    moreover from False have "cadeia W c st [] st" by simp
    ultimately show ?thesis by blast
  next
    case True
    with body have run: "prat W c (proximo W st) = Some r" by simp
    show ?thesis
    proof
      fix hist
      from "1"(1) [OF run]
      obtain hs fin where h: "historico W c (proximo W st) (hist @ [st]) = Some ((hist @ [st]) @ hs)"
        and c: "cadeia W c (proximo W st) hs fin" and r: "r = (postas fin, acumulado fin)"
        by blast
      from True h have "historico W c st hist = Some (hist @ (st # hs))"
        by (subst historico_unfold) simp
      moreover from True c have "cadeia W c st (st # hs) fin" by simp
      ultimately show "\<exists>hs fin. historico W c st hist = Some (hist @ hs) \<and> cadeia W c st hs fin
           \<and> r = (postas fin, acumulado fin)" using r by blast
    qed
  qed
qed

lemma prateleiras_cadeia:
  assumes "prateleiras W c st = Some r"
  obtains hs fin where "historico W c st hist = Some (hist @ hs)" and "cadeia W c st hs fin"
    and "r = (postas fin, acumulado fin)"
  using prateleiras_cadeia_aux [OF assms] by blast

lemma cadeia_prateleiras:
  "cadeia W c st hs fin \<Longrightarrow> prateleiras W c st = Some (postas fin, acumulado fin)"
  by (induction hs arbitrary: st) (subst prateleiras_unfold, simp)+

lemma cadeia_historico:
  "cadeia W c st hs fin \<Longrightarrow> historico W c st hist = Some (hist @ hs)"
  by (induction hs arbitrary: st hist) (subst historico_unfold, simp)+

lemma cadeia_inv:
  assumes "cadeia W c st hs fin" and "I st"
    and "\<And>s. I s \<Longrightarrow> continua c s \<Longrightarrow> I (proximo W s)"
  shows "I fin \<and> \<not> continua c fin \<and> (\<forall>h\<in>set hs. I h \<and> continua c h)"
  using assms(1,2)
proof (induction hs arbitrary: st)
  case Nil
  then show ?case by simp
next
  case (Cons h hs)
  from Cons.prems have h: "h = st" and c: "continua c st"
    and rest: "cadeia W c (proximo W st) hs fin"
    by simp_all
  from Cons.prems(2) c have "I (proximo W st)" by (rule assms(3))
  with rest have "I fin \<and> \<not> continua c fin \<and> (\<forall>h\<in>set hs. I h \<and> continua c h)"
    by (rule Cons.IH)
  with h c Cons.prems(2) show ?case by simp
qed

subsection \<open>What one shelf keeps and places\<close>

lemma restantes_elem: "q \<in> set (restantes W True x ps) \<Longrightarrow> q \<in> set ps"
  by (induction ps arbitrary: x) (auto split: if_splits)

lemma restantes_sorted_wrt:
  "sorted_wrt R ps \<Longrightarrow> sorted_wrt R (restantes W True x ps)"
  by (induction ps arbitrary: x) (auto dest: restantes_elem)

lemma restantes_nenhuma_cabe:
  "\<forall>p\<in>set ps. W < x + largura p \<Longrightarrow> restantes W True x ps = ps"
  by (induction ps) auto

lemma mset_varredura:
  "mset (restantes W True x ps) + mset (map medidas (colocadas W y True x ps)) = mset ps"
  by (induction ps arbitrary: x) (auto simp: medidas_def)

lemma colocadas_props:
  "pl \<in> set (colocadas W y True x ps) \<Longrightarrow>
     pos_y pl = y \<and> pos_x pl + largura pl \<le> W \<and> medidas pl \<in> set ps"
  by (induction ps arbitrary: x) (auto simp: medidas_def split: if_splits)



lemma topo_do_monte:
  "decrescente (p0 # ps) \<Longrightarrow> q \<in> set (p0 # ps) \<Longrightarrow> altura q \<le> altura p0"
  by (auto simp: decrescente_def)

lemma ate_mono: "ate v c \<Longrightarrow> u \<le> v \<Longrightarrow> ate u c"
  by (cases c) auto

subsection \<open>The invariants are kept by every shelf\<close>

lemma proximo_simps [simp]:
  "topo (proximo W st) = topo st + shelfAltura st"
  "acumulado (proximo W st) = acumulado st + shelfAltura st"
  "pendentes (proximo W st) = restantes W True 0 (pendentes st)"
  "postas (proximo W st) = postas st @ colocadas W (topo st) True 0 (pendentes st)"
  by (simp_all add: proximo_def)

lemma continuaE:
  assumes "continua c st"
  obtains p0 ps where "pendentes st = p0 # ps" and "shelfAltura st = altura p0"
    and "ate (topo st + altura p0) c"
proof -
  obtain y t todas res where st: "st = (y, t, todas, res)" by (cases st) auto
  with assms obtain p0 ps where "todas = p0 # ps"
    by (cases todas) (auto simp: continua_def)
  with st assms that show ?thesis by (auto simp: continua_def)
qed

lemma colocada_baixa:
  assumes "decrescente (p0 # ps)" and "pl \<in> set (colocadas W y True x (p0 # ps))"
  shows "altura pl \<le> altura p0"
proof -
  from assms(2) have "medidas pl \<in> set (p0 # ps)" by (simp only: colocadas_props)
  with assms(1) have "altura (medidas pl) \<le> altura p0" by (rule topo_do_monte)
  then show ?thesis by (simp add: medidas_def)
qed

lemma inv_limites_passo:
  assumes "inv_limites W c st" and "continua c st"
  shows "inv_limites W c (proximo W st)"
proof -
  from assms(2) obtain p0 ps where p: "pendentes st = p0 # ps" and s: "shelfAltura st = altura p0"
    and a: "ate (topo st + altura p0) c" by (rule continuaE)
  from assms(1) have d: "decrescente (p0 # ps)" by (simp add: inv_limites_def p)
  have 1: "decrescente (restantes W True 0 (p0 # ps))"
    using d unfolding decrescente_def by (rule restantes_sorted_wrt)
  have 2: "pos_x pl + largura pl \<le> W \<and> ate (pos_y pl + altura pl) c"
    if "pl \<in> set (colocadas W (topo st) True 0 (p0 # ps))" for pl
  proof -
    from that have "pos_y pl = topo st" and w: "pos_x pl + largura pl \<le> W"
      by (simp_all only: colocadas_props)
    moreover from d that have "altura pl \<le> altura p0" by (rule colocada_baixa)
    ultimately have "pos_y pl + altura pl \<le> topo st + altura p0" by simp
    with a have "ate (pos_y pl + altura pl) c" by (rule ate_mono)
    with w show ?thesis by simp
  qed
  from assms(1) 1 2 a show ?thesis
    by (auto simp: inv_limites_def p s simp del: restantes.simps colocadas.simps)
qed






subsection \<open>Expansion, ordering, and a call that returns\<close>

lemma array_fill_Inr:
  "array_fill p = Inr xs \<longleftrightarrow>
     0 \<le> quantidade p \<and> xs = replicate (nat (quantidade p)) \<lparr>largura = largura p, altura = altura p\<rparr>"
  by (auto simp: array_fill_def)

lemma flatMap_pecas_Inr:
  "flatMap_pecas pecas = Inr xs \<longleftrightarrow> (\<forall>p\<in>set pecas. 0 \<le> quantidade p) \<and> xs = instancias pecas"
proof (induction pecas arbitrary: xs)
  case Nil
  then show ?case by (auto simp: instancias_def)
next
  case (Cons p ps)
  show ?case
  proof (cases "quantidade p < 0")
    case True
    then show ?thesis by (auto simp: array_fill_def)
  next
    case False
    then show ?thesis using Cons.IH
      by (cases "flatMap_pecas ps") (auto simp: array_fill_def instancias_def)
  qed
qed



lemma ordenar_set [simp]: "set (ordenar ps) = set ps"
  by (simp add: ordenar_def)

lemma ordenar_mset [simp]: "mset (ordenar ps) = mset ps"
  by (simp add: ordenar_def)

lemma ordenar_decrescente: "decrescente (ordenar ps)"
proof -
  have "sorted (map (\<lambda>p. - altura p) (ordenar ps))"
    by (simp add: ordenar_def)
  then show ?thesis
    by (simp add: decrescente_def sorted_map)
qed

lemma calcularArranjo_Inr:
  assumes "calcularArranjo W C pecas = Some (Inr r)"
  shows "\<forall>p\<in>set pecas. 0 \<le> quantidade p"
    and "prateleiras W (comprimentoMax C) (0, 0, ordenar (instancias pecas), [])
           = Some (arranjo r, comprimentoUtilizado r)"
proof -
  from assms obtain xs where xs: "flatMap_pecas pecas = Inr xs"
    by (cases "flatMap_pecas pecas") (auto simp: calcularArranjo_def)
  then show "\<forall>p\<in>set pecas. 0 \<le> quantidade p" by (simp add: flatMap_pecas_Inr)
  from xs have "xs = instancias pecas" by (simp add: flatMap_pecas_Inr)
  with xs assms show "prateleiras W (comprimentoMax C) (0, 0, ordenar (instancias pecas), [])
           = Some (arranjo r, comprimentoUtilizado r)"
    by (auto simp: calcularArranjo_def split: option.splits)
qed

lemma calcularArranjo_cadeia:
  assumes "calcularArranjo W C pecas = Some (Inr r)"
  obtains hs fin where
    "prateleirasAbertas W C pecas = Some hs"
    and "cadeia W (comprimentoMax C) (0, 0, ordenar (instancias pecas), []) hs fin"
    and "arranjo r = postas fin" and "comprimentoUtilizado r = acumulado fin"
proof -
  note run = calcularArranjo_Inr [OF assms]
  from run(1) have f: "flatMap_pecas pecas = Inr (instancias pecas)"
    by (simp add: flatMap_pecas_Inr)
  from run(2) obtain hs fin where
    h: "historico W (comprimentoMax C) (0, 0, ordenar (instancias pecas), []) [] = Some ([] @ hs)"
    and c: "cadeia W (comprimentoMax C) (0, 0, ordenar (instancias pecas), []) hs fin"
    and r: "(arranjo r, comprimentoUtilizado r) = (postas fin, acumulado fin)"
    by (rule prateleiras_cadeia)
  from f h have "prateleirasAbertas W C pecas = Some hs"
    by (simp add: prateleirasAbertas_def)
  with c r that show ?thesis by simp
qed

subsection \<open>The invariants at the end of a call\<close>

lemma estado_inicial_limites:
  "inv_limites W (comprimentoMax C) (0, 0, ordenar (instancias pecas), [])"
  by (simp add: inv_limites_def ordenar_decrescente comprimentoMax_def)









subsection \<open>The shelves of a call\<close>






subsection \<open>Placed and left over\<close>

lemma cadeia_mset:
  "cadeia W c st hs fin \<Longrightarrow>
     mset (pendentes fin) + mset (map medidas (postas fin))
       = mset (pendentes st) + mset (map medidas (postas st))"
proof (induction hs arbitrary: st)
  case Nil
  then show ?case by simp
next
  case (Cons h hs)
  from Cons.prems have rest: "cadeia W c (proximo W st) hs fin"
    by simp
  from rest have "mset (pendentes fin) + mset (map medidas (postas fin))
       = mset (pendentes (proximo W st)) + mset (map medidas (postas (proximo W st)))"
    by (rule Cons.IH)
  also have "\<dots> = (mset (restantes W True 0 (pendentes st))
                   + mset (map medidas (colocadas W (topo st) True 0 (pendentes st))))
                  + mset (map medidas (postas st))"
    by simp
  also have "\<dots> = mset (pendentes st) + mset (map medidas (postas st))"
    by (simp only: mset_varredura)
  finally show ?case .
qed

lemma nao_ate: "\<not> ate v (comprimentoMax C) \<Longrightarrow> 0 < C \<and> C < v"
  by (auto simp: comprimentoMax_def split: if_splits)

lemma calcularArranjo_sobras:
  assumes "calcularArranjo W C pecas = Some (Inr r)"
  obtains fin where
    "mset (instancias pecas) = mset (map medidas (arranjo r)) + mset (pendentes fin)"
    and "inv_limites W (comprimentoMax C) fin" and "\<not> continua (comprimentoMax C) fin"
    and "comprimentoUtilizado r = acumulado fin"
proof -
  from assms obtain hs fin where
    c: "cadeia W (comprimentoMax C) (0, 0, ordenar (instancias pecas), []) hs fin"
    and r: "arranjo r = postas fin" "comprimentoUtilizado r = acumulado fin"
    by (rule calcularArranjo_cadeia)
  from c have "mset (pendentes fin) + mset (map medidas (postas fin))
                 = mset (pendentes (0, 0, ordenar (instancias pecas), []))
                   + mset (map medidas (postas (0, 0, ordenar (instancias pecas), [])))"
    by (rule cadeia_mset)
  with r have 1: "mset (instancias pecas) = mset (map medidas (arranjo r)) + mset (pendentes fin)"
    by (simp add: add.commute)
  from c estado_inicial_limites
  have "inv_limites W (comprimentoMax C) fin \<and> \<not> continua (comprimentoMax C) fin
        \<and> (\<forall>h\<in>set hs. inv_limites W (comprimentoMax C) h \<and> continua (comprimentoMax C) h)"
    by (rule cadeia_inv) (rule inv_limites_passo)
  with 1 r(2) that show ?thesis by blast
qed


subsection \<open>When the outer loop ends, and when it does not\<close>




lemma restantes_length: "length (restantes W True x ps) \<le> length ps"
  by (induction ps arbitrary: x) (auto intro: le_SucI)

lemma prateleiras_cabem_termina:
  assumes "\<forall>p\<in>set (pendentes st). largura p \<le> W"
  shows "\<exists>r. prateleiras W c st = Some r"
  using assms
proof (induction "length (pendentes st)" arbitrary: st rule: less_induct)
  case less
  show ?case
  proof (cases "continua c st")
    case False
    then show ?thesis by (subst prateleiras_unfold) simp
  next
    case True
    then obtain p0 ps where p: "pendentes st = p0 # ps"
      by (rule continuaE)
    with less.prems have "0 + largura p0 \<le> W" by simp
    then have "restantes W True 0 (p0 # ps) = restantes W True (0 + largura p0) ps"
      by simp
    then have "length (pendentes (proximo W st)) < length (pendentes st)"
      using restantes_length [of W "0 + largura p0" ps] by (simp add: p)
    moreover have "\<forall>q\<in>set (pendentes (proximo W st)). largura q \<le> W"
      using less.prems restantes_elem by fastforce
    ultimately have "\<exists>r. prateleiras W c (proximo W st) = Some r"
      by (rule less.hyps)
    with True show ?thesis by (subst prateleiras_unfold) simp
  qed
qed

subsection \<open>The reference procedure and the loops\<close>


















subsection \<open>The promise of the handler\<close>

lemma liquidar_promessa:
  "promessa (liquidar l s) = (case promessa s of None \<Rightarrow> Some l | Some l' \<Rightarrow> Some l')"
  by (simp add: liquidar_def split: option.splits)

lemma passo_liquidada:
  "promessa s = Some l \<Longrightarrow> promessa (passo parse truthy s e) = Some l"
  by (cases e) (auto simp: liquidar_def Let_def split: option.splits)

lemma foldl_liquidada:
  "promessa s = Some l \<Longrightarrow> promessa (foldl (passo parse truthy) s es) = Some l"
  by (induction es arbitrary: s) (simp_all add: passo_liquidada)

lemma foldl_saida:
  "\<forall>e\<in>set es. saida e \<Longrightarrow>
     promessa (foldl (passo parse truthy) s es) = promessa s
     \<and> timeout_pendente (foldl (passo parse truthy) s es) = timeout_pendente s"
proof (induction es arbitrary: s)
  case Nil
  then show ?case by simp
next
  case (Cons e es)
  then show ?case by (cases e) simp_all
qed

section \<open>The claims\<close>



text \<open>
  Claim C2, as stated: every requested instance is either placed exactly once or
  explicitly reported unplaced in the result, and none is dropped silently. The result
  of \<^verbatim>\<open>calcularArranjo\<close> is the placement sequence and the consumed length, nothing else.
  On the roll 10 by 5 the requests \<^const>\<open>cenarioC\<close> and \<^const>\<open>cenarioD\<close> differ in
  their second instance, which is not placed, and store the same result: the result
  does not tell which instance was left out.
\<close>

theorem descartada_sem_aviso_counterexample:
  "calcularArranjo 10 5 cenarioC = Some (Inr resultadoC)
   \<and> calcularArranjo 10 5 cenarioD = Some (Inr resultadoC)
   \<and> instancias cenarioC = [\<lparr>largura = 4, altura = 5\<rparr>, \<lparr>largura = 8, altura = 5\<rparr>]
   \<and> instancias cenarioD = [\<lparr>largura = 4, altura = 5\<rparr>, \<lparr>largura = 9, altura = 5\<rparr>]
   \<and> map medidas (arranjo resultadoC) = [\<lparr>largura = 4, altura = 5\<rparr>]"
proof -
  have "calcularArranjo 10 5 cenarioC = Some (Inr resultadoC)" by code_simp
  moreover have "calcularArranjo 10 5 cenarioD = Some (Inr resultadoC)" by code_simp
  moreover have "instancias cenarioC = [\<lparr>largura = 4, altura = 5\<rparr>, \<lparr>largura = 8, altura = 5\<rparr>]"
    by (simp add: instancias_def cenarioC_def)
  moreover have "instancias cenarioD = [\<lparr>largura = 4, altura = 5\<rparr>, \<lparr>largura = 9, altura = 5\<rparr>]"
    by (simp add: instancias_def cenarioD_def)
  moreover have "map medidas (arranjo resultadoC) = [\<lparr>largura = 4, altura = 5\<rparr>]"
    by (simp add: resultadoC_def medidas_def)
  ultimately show ?thesis by blast
qed

text \<open>
  Claim C2, amended. When \<^verbatim>\<open>calcularArranjo\<close> returns, the placements are requested
  instances, each placed at most once: the sizes of the placements and of the instances
  left over make up exactly the requested instances. Instances are left over only when
  the length is bounded and the shelf of the tallest of them would pass the bound; they
  are dropped without a report.
\<close>

theorem colocadas_ou_descartadas:
  assumes "calcularArranjo W C pecas = Some (Inr r)"
  shows "\<exists>sobras. mset (instancias pecas) = mset (map medidas (arranjo r)) + mset sobras
           \<and> (sobras \<noteq> [] \<longrightarrow>
                0 < C \<and> (\<exists>p\<in>set sobras. (\<forall>q\<in>set sobras. altura q \<le> altura p)
                               \<and> C < comprimentoUtilizado r + altura p))"
proof -
  from assms obtain fin where
    1: "mset (instancias pecas) = mset (map medidas (arranjo r)) + mset (pendentes fin)"
    and l: "inv_limites W (comprimentoMax C) fin" and n: "\<not> continua (comprimentoMax C) fin"
    and r: "comprimentoUtilizado r = acumulado fin"
    by (rule calcularArranjo_sobras)
  have 2: "0 < C \<and> (\<exists>p\<in>set (pendentes fin). (\<forall>q\<in>set (pendentes fin). altura q \<le> altura p)
                               \<and> C < comprimentoUtilizado r + altura p)"
    if ne: "pendentes fin \<noteq> []"
  proof -
    from ne obtain p0 ps where p: "pendentes fin = p0 # ps"
      by (cases "pendentes fin") auto
    obtain y t todas res where f: "fin = (y, t, todas, res)" by (cases fin) auto
    from p f have sa: "shelfAltura fin = altura p0" by simp
    from n ne sa have "\<not> ate (topo fin + altura p0) (comprimentoMax C)"
      by (simp add: continua_def)
    then have "0 < C \<and> C < topo fin + altura p0" by (rule nao_ate)
    moreover from l have "acumulado fin = topo fin" and "decrescente (p0 # ps)"
      by (simp_all add: inv_limites_def p)
    moreover from this(2) have "\<forall>q\<in>set (p0 # ps). altura q \<le> altura p0"
      using topo_do_monte by blast
    ultimately show ?thesis using r p by auto
  qed
  from 1 2 show ?thesis by blast
qed

text \<open>The request \<^const>\<open>cenarioC\<close>: the piece 8 by 5 is left over, and a second shelf
  would end at 10, beyond the bound 5.\<close>

theorem colocadas_ou_descartadas_witness:
  "calcularArranjo 10 5 cenarioC = Some (Inr resultadoC)
   \<and> (\<exists>sobras. mset (instancias cenarioC) = mset (map medidas (arranjo resultadoC)) + mset sobras
         \<and> sobras = [\<lparr>largura = 8, altura = 5\<rparr>]
         \<and> (5::int) < comprimentoUtilizado resultadoC + altura (hd sobras))"
proof -
  have run: "calcularArranjo 10 5 cenarioC = Some (Inr resultadoC)" by code_simp
  from colocadas_ou_descartadas [OF run] obtain sobras where
    m: "mset (instancias cenarioC) = mset (map medidas (arranjo resultadoC)) + mset sobras"
    by blast
  then have "mset sobras = {#\<lparr>largura = 8, altura = 5\<rparr>#}"
    by (simp add: instancias_def cenarioC_def resultadoC_def medidas_def)
  then have "sobras = [\<lparr>largura = 8, altura = 5\<rparr>]"
    by (simp add: mset_single_iff_right)
  with m run show ?thesis by (simp add: resultadoC_def)
qed














text \<open>
  Claim C8, as stated: when the wall-clock limit expires before the optimization
  finishes, the \<^verbatim>\<open>optimize-cutting\<close> operation terminates normally with a best-effort
  result, and the expiry is never surfaced as an error. The limit of the handler is its
  30 second timer. When it fires before the process has closed, the promise is rejected
  with the timeout error, also when the process had already written a JSON value that
  a \<^verbatim>\<open>close\<close> with exit code 0 would have returned.
\<close>

theorem timeout_e_erro_counterexample:
  "optimize_cutting True Some (\<lambda>j. True) [Stdout ''{}'', Timeout, Close None]
     = Some (Reject TimeoutPython)
   \<and> optimize_cutting True Some (\<lambda>j. True) [Stdout ''{}'', Close (Some 0)]
     = Some (Resolve ''{}'')"
  by (simp add: optimize_cutting_def liquidar_def jsonResult_def trim_def espaco_def)

text \<open>
  Claim C8, amended. When the 30 second timer of the \<^verbatim>\<open>optimize-cutting\<close> handler fires
  before the Python process has closed, that is, after output events only, the handler
  kills the process and the call is rejected with the error
  \<^verbatim>\<open>Timeout: Python process demorou muito para responder\<close>, whatever the process has
  written and whatever happens afterwards; no result is returned.
\<close>

theorem timeout_rejeita:
  assumes "\<forall>e\<in>set antes. saida e"
  shows "optimize_cutting True parse truthy (antes @ Timeout # depois) = Some (Reject TimeoutPython)"
proof -
  let ?s0 = "\<lparr>result = [], error = [], timeout_pendente = True, promessa = None\<rparr> :: 'a execucao"
  let ?s1 = "foldl (passo parse truthy) ?s0 antes"
  from assms have "promessa ?s1 = None" and "timeout_pendente ?s1"
    by (simp_all add: foldl_saida)
  then have "promessa (passo parse truthy ?s1 Timeout) = Some (Reject TimeoutPython)"
    by (simp add: liquidar_def)
  then have "promessa (foldl (passo parse truthy) (passo parse truthy ?s1 Timeout) depois)
               = Some (Reject TimeoutPython)"
    by (rule foldl_liquidada)
  then show ?thesis by (simp add: optimize_cutting_def)
qed

text \<open>Output on both streams, then the timer, then the \<^verbatim>\<open>close\<close> of the killed process.\<close>

theorem timeout_rejeita_witness:
  "list_all saida [Stdout ''{}'', Stderr ''aviso'']
   \<and> optimize_cutting True Some (\<lambda>j. True) ([Stdout ''{}'', Stderr ''aviso''] @ Timeout # [Close None])
       = Some (Reject TimeoutPython)"
proof -
  have s: "\<forall>e\<in>set [Stdout ''{}'', Stderr ''aviso'']. saida e" by simp
  from timeout_rejeita [OF s, of Some "\<lambda>j. True" "[Close None]"] s
  show ?thesis by (simp add: list_all_iff)
qed





end
